theory Spec2Isabelle
  imports Main "HOL-Library.AList"
begin

section \<open>JavaScript values as the validator observes them\<close>

text \<open>
  \<open>isSchemaType\<close> of \<open>packages/marshaller/lib/SchemaType.ts\<close> takes an argument of
  type \<open>any\<close> and probes its shape at run time. The embedding therefore starts from
  a datatype of JavaScript values: undefined, null, booleans, numbers, strings,
  functions, arrays and plain objects (symbols and bigints are left out).

  \<^item> A number is an integer or \<open>NaN\<close>; the validator reads only a number's
    truthiness, its \<open>typeof\<close> and its string form, which is the decimal numeral for
    the integers below \<open>10\<^sup>2\<^sup>1\<close> in magnitude.
  \<^item> A function is represented by its source text, which is what
    \<open>Function.prototype.toString\<close> returns for it.
  \<^item> An array is the list of its elements (no holes, no extra named properties).
  \<^item> A plain object is the association list of its own enumerable data properties in
    the order \<open>Object.keys\<close> enumerates them; its prototype is \<open>Object.prototype\<close>.
    Where a key occurs twice the first binding is the property.

  Values are finite trees, so cyclic object graphs are not values of this type.
\<close>

datatype jsval =
    JUndefined
  | JNull
  | JBool bool
  | JNum int
  | JNaN
  | JStr string
  | JFun string
  | JArr "jsval list"
  | JObj "(string \<times> jsval) list"

text \<open>
  Abrupt completion: a \<open>TypeError\<close> thrown by the language itself, or a call of a
  function that the validated value supplies, whose effect the embedding does not follow.
\<close>

datatype error = TypeError | Invokes string

definition bindE :: "error + 'a \<Rightarrow> ('a \<Rightarrow> error + 'b) \<Rightarrow> error + 'b" where
  "bindE r f = (case r of Inl e \<Rightarrow> Inl e | Inr v \<Rightarrow> f v)"

text \<open>\<open>a && b\<close> on booleans: \<open>b\<close> is evaluated only when \<open>a\<close> is true.\<close>

definition andAlso :: "error + bool \<Rightarrow> error + bool \<Rightarrow> error + bool" where
  "andAlso a b = (case a of Inl e \<Rightarrow> Inl e | Inr x \<Rightarrow> if x then b else Inr False)"

text \<open>\<open>a || b\<close> on booleans: \<open>b\<close> is evaluated only when \<open>a\<close> is false.\<close>

definition orElse :: "error + bool \<Rightarrow> error + bool \<Rightarrow> error + bool" where
  "orElse a b = (case a of Inl e \<Rightarrow> Inl e | Inr x \<Rightarrow> if x then Inr True else b)"

text \<open>\<open>Boolean(v)\<close>: the falsy values are undefined, null, false, 0, NaN and the empty string.\<close>

fun Boolean_js :: "jsval \<Rightarrow> bool" where
  "Boolean_js JUndefined = False"
| "Boolean_js JNull = False"
| "Boolean_js (JBool b) = b"
| "Boolean_js (JNum n) = (n \<noteq> 0)"
| "Boolean_js JNaN = False"
| "Boolean_js (JStr s) = (s \<noteq> [])"
| "Boolean_js (JFun f) = True"
| "Boolean_js (JArr xs) = True"
| "Boolean_js (JObj ps) = True"

text \<open>\<open>typeof v\<close>; null and arrays are of type \<open>object\<close>.\<close>

fun typeof :: "jsval \<Rightarrow> string" where
  "typeof JUndefined = ''undefined''"
| "typeof JNull = ''object''"
| "typeof (JBool b) = ''boolean''"
| "typeof (JNum n) = ''number''"
| "typeof JNaN = ''number''"
| "typeof (JStr s) = ''string''"
| "typeof (JFun f) = ''function''"
| "typeof (JArr xs) = ''object''"
| "typeof (JObj ps) = ''object''"

text \<open>\<open>Array.isArray(v)\<close>, and the elements a \<open>for ... of\<close> loop over an array visits.\<close>

fun isArray :: "jsval \<Rightarrow> bool" where
  "isArray (JArr xs) = True"
| "isArray v = False"

fun elements :: "jsval \<Rightarrow> jsval list" where
  "elements (JArr xs) = xs"
| "elements v = []"

text \<open>
  \<open>field v name\<close> is the value of the property \<open>name\<close> where \<open>v\<close> has it as an own
  property, and undefined otherwise. \<open>getProp v name\<close> is the property read \<open>v.name\<close>:
  it throws on undefined and null. Both are used only at the names the validator reads
  (\<open>type\<close>, \<open>attributeName\<close>, \<open>keyConfiguration\<close>, \<open>indexKeyConfigurations\<close>,
  \<open>indexName\<close>, \<open>marshall\<close>, \<open>unmarshall\<close>, \<open>members\<close>, \<open>valueConstructor\<close>,
  \<open>memberType\<close>, \<open>versionAttribute\<close>), none of which the built-in prototypes of
  objects, arrays, functions or primitives define, so that a read which finds no own
  property yields undefined.
\<close>

fun field :: "jsval \<Rightarrow> string \<Rightarrow> jsval" where
  "field (JObj ps) name = (case map_of ps name of None \<Rightarrow> JUndefined | Some v \<Rightarrow> v)"
| "field v name = JUndefined"

fun getProp :: "jsval \<Rightarrow> string \<Rightarrow> error + jsval" where
  "getProp JUndefined name = Inl TypeError"
| "getProp JNull name = Inl TypeError"
| "getProp v name = Inr (field v name)"

text \<open>
  The values that \<open>members[key]\<close> takes as \<open>key\<close> runs over \<open>Object.keys(members)\<close>:
  the own enumerable properties' values. For an array these are its elements.
\<close>

fun ownValues :: "jsval \<Rightarrow> jsval list" where
  "ownValues (JObj ps) = map snd (AList.clearjunk ps)"
| "ownValues (JArr xs) = xs"
| "ownValues v = []"

text \<open>\<open>xs.indexOf(x)\<close>: the first index of \<open>x\<close>, or \<open>-1\<close>.\<close>

fun indexOf :: "'a list \<Rightarrow> 'a \<Rightarrow> int" where
  "indexOf [] x = - 1"
| "indexOf (y # ys) x =
     (if y = x then 0 else (let i = indexOf ys x in if i < 0 then - 1 else i + 1))"

subsection \<open>String conversion and the \<open>in\<close> operator\<close>

fun digits :: "nat \<Rightarrow> string" where
  "digits n = (if n < 10 then [''0123456789'' ! n] else digits (n div 10) @ [''0123456789'' ! (n mod 10)])"

definition showInt :: "int \<Rightarrow> string" where
  "showInt i = (if i < 0 then CHR ''-'' # digits (nat (- i)) else digits (nat i))"

fun joinWith :: "string \<Rightarrow> string list \<Rightarrow> string" where
  "joinWith sep [] = []"
| "joinWith sep [s] = s"
| "joinWith sep (s # t # ss) = s @ sep @ joinWith sep (t # ss)"

text \<open>
  \<open>toStringJS v\<close> is the abstract operation ToString (with ToPrimitive, hint string, for
  objects); it is what \<open>v in o\<close> applies to \<open>v\<close> to obtain a property key.
  \<^item> An array converts by \<open>Array.prototype.join\<close>: its elements' strings, undefined and
    null as the empty string, separated by commas.
  \<^item> A function converts to its source text.
  \<^item> A plain object converts by its \<open>toString\<close> and then its \<open>valueOf\<close>. The
    inherited \<open>Object.prototype.toString\<close> gives \<open>[object Object]\<close>; the inherited
    \<open>Object.prototype.valueOf\<close> returns the object, which is no primitive. An own
    property of either name that is a function is called; one that is not callable is
    skipped. When neither yields a primitive a TypeError is thrown.
\<close>

fun toStringJS :: "jsval \<Rightarrow> error + string"
  and elementStrings :: "jsval list \<Rightarrow> error + string list" where
  "toStringJS JUndefined = Inr ''undefined''"
| "toStringJS JNull = Inr ''null''"
| "toStringJS (JBool b) = Inr (if b then ''true'' else ''false'')"
| "toStringJS (JNum n) = Inr (showInt n)"
| "toStringJS JNaN = Inr ''NaN''"
| "toStringJS (JStr s) = Inr s"
| "toStringJS (JFun f) = Inr f"
| "toStringJS (JArr xs) =
     (case elementStrings xs of Inl e \<Rightarrow> Inl e | Inr ss \<Rightarrow> Inr (joinWith '','' ss))"
| "toStringJS (JObj ps) =
     (case map_of ps ''toString'' of
        None \<Rightarrow> Inr ''[object Object]''
      | Some (JFun f) \<Rightarrow> Inl (Invokes f)
      | Some _ \<Rightarrow>
          (case map_of ps ''valueOf'' of
             Some (JFun g) \<Rightarrow> Inl (Invokes g)
           | _ \<Rightarrow> Inl TypeError))"
| "elementStrings [] = Inr []"
| "elementStrings (x # xs) =
     (case (if x = JUndefined \<or> x = JNull then Inr [] else toStringJS x) of
        Inl e \<Rightarrow> Inl e
      | Inr s \<Rightarrow> (case elementStrings xs of Inl e \<Rightarrow> Inl e | Inr ss \<Rightarrow> Inr (s # ss)))"

text \<open>
  The property names of \<open>Object.prototype\<close>, which every object literal inherits.
\<close>

definition ObjectPrototype :: "string list" where
  "ObjectPrototype =
     [''constructor'', ''__defineGetter__'', ''__defineSetter__'', ''hasOwnProperty'',
      ''__lookupGetter__'', ''__lookupSetter__'', ''isPrototypeOf'',
      ''propertyIsEnumerable'', ''toString'', ''valueOf'', ''__proto__'',
      ''toLocaleString'']"

text \<open>
  \<open>k in o\<close> for an object literal \<open>o\<close> with the own properties \<open>ps\<close>: \<open>k\<close> is
  converted to a property key, which is then looked up in \<open>o\<close> and along its
  prototype chain.
\<close>

definition in_op :: "jsval \<Rightarrow> (string \<times> jsval) list \<Rightarrow> error + bool" where
  "in_op k ps =
     bindE (toStringJS k) (\<lambda>key. Inr (key \<in> set (map fst ps) \<or> key \<in> set ObjectPrototype))"

section \<open>The registries and the shape checks\<close>

definition TypeTags :: "(string \<times> jsval) list" where
  "TypeTags =
     [(''Binary'', JStr ''Binary''),
      (''BinarySet'', JStr ''BinarySet''),
      (''Boolean'', JStr ''Boolean''),
      (''Collection'', JStr ''Collection''),
      (''Custom'', JStr ''Custom''),
      (''Date'', JStr ''Date''),
      (''Document'', JStr ''Document''),
      (''Hash'', JStr ''Hash''),
      (''List'', JStr ''List''),
      (''Map'', JStr ''Map''),
      (''Null'', JStr ''Null''),
      (''Number'', JStr ''Number''),
      (''NumberSet'', JStr ''NumberSet''),
      (''String'', JStr ''String''),
      (''StringSet'', JStr ''StringSet''),
      (''Tuple'', JStr ''Tuple'')]"

definition KeyTypes :: "(string \<times> jsval) list" where
  "KeyTypes = [(''HASH'', JStr ''HASH''), (''RANGE'', JStr ''RANGE'')]"

definition isBaseType :: "jsval \<Rightarrow> error + bool" where
  "isBaseType arg =
     andAlso (Inr (Boolean_js arg))
    (andAlso (Inr (typeof arg = ''object''))
    (andAlso (bindE (getProp arg ''type'') (\<lambda>t. Inr (typeof t = ''string'')))
    (andAlso (bindE (getProp arg ''type'') (\<lambda>t. in_op t TypeTags))
             (bindE (getProp arg ''attributeName'')
                (\<lambda>a. Inr (indexOf [''string'', ''undefined''] (typeof a) > - 1))))))"

definition isKeyConfiguration :: "jsval \<Rightarrow> error + bool" where
  "isKeyConfiguration arg =
     andAlso (Inr (Boolean_js arg))
             (bindE (getProp arg ''type'') (\<lambda>t. in_op t KeyTypes))"

definition isIndexKeyConfiguration :: "jsval \<Rightarrow> error + bool" where
  "isIndexKeyConfiguration arg =
     andAlso (isKeyConfiguration arg)
             (bindE (getProp arg ''indexName'') (\<lambda>n. Inr (typeof n = ''string'')))"

text \<open>
  \<open>xs.map(f)\<close> for an \<open>f\<close> that may throw: the elements are visited in order and
  the first throw ends the traversal.
\<close>

fun mapE :: "('a \<Rightarrow> error + 'b) \<Rightarrow> 'a list \<Rightarrow> error + 'b list" where
  "mapE f [] = Inr []"
| "mapE f (x # xs) =
     (case f x of
        Inl e \<Rightarrow> Inl e
      | Inr y \<Rightarrow> (case mapE f xs of Inl e \<Rightarrow> Inl e | Inr ys \<Rightarrow> Inr (y # ys)))"

definition isKeyableType :: "jsval \<Rightarrow> error + bool" where
  "isKeyableType arg =
     bindE (getProp arg ''keyConfiguration'') (\<lambda>keyConfiguration.
     bindE (getProp arg ''indexKeyConfigurations'') (\<lambda>indexKeyConfigurations.
       andAlso
         (orElse (Inr (keyConfiguration = JUndefined))
                 (isKeyConfiguration keyConfiguration))
         (orElse (Inr (indexKeyConfigurations = JUndefined))
                 (andAlso (Inr (isArray indexKeyConfigurations))
                    (bindE (mapE isIndexKeyConfiguration (elements indexKeyConfigurations))
                       (\<lambda>bs. Inr (length (filter (\<lambda>b. \<not> b) bs) = 0)))))))"

subsection \<open>The recursive validator\<close>

text \<open>
  \<open>isSchemaType\<close> follows the source case by case. \<open>allSchemaTypes\<close> is the loop
  \<^verbatim>\<open>for (x of xs) { if (!isSchemaType(x)) return false; }\<close>
  that the \<open>Document\<close> and \<open>Tuple\<close> cases run: \<open>Inr False\<close> is the early return,
  \<open>Inr True\<close> the end of the loop, after which the case goes on.
\<close>

function isSchemaType :: "jsval \<Rightarrow> error + bool"
  and allSchemaTypes :: "jsval list \<Rightarrow> error + bool" where
  "isSchemaType arg =
     (case isBaseType arg of
        Inl e \<Rightarrow> Inl e
      | Inr base \<Rightarrow>
          if base then
            (case getProp arg ''type'' of
               Inl e \<Rightarrow> Inl e
             | Inr t \<Rightarrow>
                 if t = JStr ''Binary'' \<or> t = JStr ''String'' then isKeyableType arg
                 else if t = JStr ''Custom'' then
                   andAlso (bindE (getProp arg ''marshall'') (\<lambda>m. Inr (typeof m = ''function'')))
                           (bindE (getProp arg ''unmarshall'') (\<lambda>u. Inr (typeof u = ''function'')))
                 else if t = JStr ''Document'' then
                   (case getProp arg ''valueConstructor'' of
                      Inl e \<Rightarrow> Inl e
                    | Inr valueConstructor \<Rightarrow>
                        (case getProp arg ''members'' of
                           Inl e \<Rightarrow> Inl e
                         | Inr members \<Rightarrow>
                             if \<not> Boolean_js members \<or> typeof members \<noteq> ''object'' then Inr False
                             else
                               (case allSchemaTypes (ownValues members) of
                                  Inl e \<Rightarrow> Inl e
                                | Inr ok \<Rightarrow>
                                    if \<not> ok then Inr False
                                    else Inr (indexOf [''function'', ''undefined'']
                                                (typeof valueConstructor) > - 1))))
                 else if t = JStr ''List'' \<or> t = JStr ''Map'' then
                   (case getProp arg ''memberType'' of
                      Inl e \<Rightarrow> Inl e
                    | Inr memberType \<Rightarrow> isSchemaType memberType)
                 else if t = JStr ''Number'' then
                   andAlso (isKeyableType arg)
                           (bindE (getProp arg ''versionAttribute'')
                              (\<lambda>v. Inr (indexOf [''boolean'', ''undefined''] (typeof v) > - 1)))
                 else if t = JStr ''Tuple'' then
                   (case getProp arg ''members'' of
                      Inl e \<Rightarrow> Inl e
                    | Inr members \<Rightarrow>
                        if \<not> isArray members then Inr False
                        else allSchemaTypes (elements members))
                 else Inr True)
          else Inr False)"
| "allSchemaTypes [] = Inr True"
| "allSchemaTypes (member # members) =
     (case isSchemaType member of
        Inl e \<Rightarrow> Inl e
      | Inr ok \<Rightarrow> if \<not> ok then Inr False else allSchemaTypes members)"
  by pat_completeness auto

text \<open>
  Termination: every recursive call is on a value stored inside the argument. The
  measure is the size of the value, and for the loop the summed size of the values that
  are still to be visited.
\<close>

termination
proof -
  have map_of_le: "size v \<le> size_list (size_prod (\<lambda>x. 0) size) ps"
    if "map_of ps k = Some v" for ps :: "(string \<times> jsval) list" and k v
    using that by (induction ps) (auto split: if_splits)
  have field_less: "size (field (JObj ps) k) < size (JObj ps)" for ps k
    by (auto split: option.splits dest: map_of_le simp: less_Suc_eq_le)
  have filter_le: "size_list f (filter P xs) \<le> size_list f xs"
    for f :: "string \<times> jsval \<Rightarrow> nat" and P xs
    by (induction xs) auto
  have clearjunk_le: "size_list f (AList.clearjunk ps) \<le> size_list f ps"
    for f :: "string \<times> jsval \<Rightarrow> nat" and ps
  proof (induction ps rule: AList.clearjunk.induct)
    case 1
    show ?case by simp
  next
    case (2 p ps)
    have "size_list f (AList.delete (fst p) ps) \<le> size_list f ps"
      by (simp add: AList.delete_eq filter_le)
    with 2 show ?case by simp
  qed
  have map_snd_le: "size_list size (map snd ps) \<le> size_list (size_prod (\<lambda>x. 0) size) ps"
    for ps :: "(string \<times> jsval) list"
    by (induction ps) auto
  have ownValues_le: "size_list size (ownValues m) \<le> size m" for m
  proof (cases m)
    case (JObj ps)
    have "size_list size (map snd (AList.clearjunk ps))
            \<le> size_list (size_prod (\<lambda>x. 0) size) (AList.clearjunk ps)"
      by (rule map_snd_le)
    also have "\<dots> \<le> size_list (size_prod (\<lambda>x. 0) size) ps"
      by (rule clearjunk_le)
    finally show ?thesis using JObj by simp
  qed simp_all
  have elements_le: "size_list size (elements m) \<le> size m" for m
    by (cases m) simp_all
  have getProp_less: "size v < size arg"
    if "isBaseType arg = Inr b" and "b" and "getProp arg k = Inr v" for arg b k v
  proof -
    from that(1,2) obtain ps where "arg = JObj ps"
      by (cases arg) (simp_all add: isBaseType_def andAlso_def bindE_def)
    with that(3) field_less [of ps k] show ?thesis by simp
  qed
  show ?thesis
  proof (relation "measure (\<lambda>x. case x of Inl v \<Rightarrow> size v | Inr vs \<Rightarrow> size_list size vs)",
      goal_cases)
    case 1
    show ?case by simp
  next
    case (2 arg b ba bb bc)
    have "size bc < size arg"
      using 2(1,2,8) by (rule getProp_less)
    with ownValues_le [of bc] show ?case by simp
  next
    case (3 arg b ba bb)
    have "size bb < size arg"
      using 3(1,2,8) by (rule getProp_less)
    then show ?case by simp
  next
    case (4 arg b ba bb)
    have "size bb < size arg"
      using 4(1,2,10) by (rule getProp_less)
    with elements_le [of bb] show ?case by simp
  next
    case (5 member members)
    show ?case by simp
  next
    case (6 member members ok)
    show ?case by simp
  qed
qed

declare isSchemaType.simps [simp del]
declare digits.simps [simp del]

section \<open>Properties of the validator\<close>

text \<open>
  The specification renames what the source defines: its \<open>isValidSchemaNode\<close> is
  \<open>isSchemaType\<close>, its \<open>kind\<close> is the field \<open>type\<close> of a node, its
  \<open>persistedName\<close> is \<open>attributeName\<close>, the \<open>role\<close> of a key configuration is
  that configuration's field \<open>type\<close>, the roles \<open>PRIMARY_HASH\<close> and
  \<open>PRIMARY_RANGE\<close> are \<open>HASH\<close> and \<open>RANGE\<close>, and \<open>isVersionAttribute\<close> is
  \<open>versionAttribute\<close>. The statements below use the source's names. A node is
  valid when \<open>isSchemaType\<close> returns true, that is, when its result is \<open>Inr True\<close>.
\<close>

subsection \<open>Auxiliary facts\<close>

lemma isBaseType_is_obj: "isBaseType arg = Inr True \<Longrightarrow> \<exists>ps. arg = JObj ps"
  by (cases arg) (simp_all add: isBaseType_def andAlso_def bindE_def)

lemma indexOf_gt_iff: "(indexOf xs x > - 1) = (x \<in> set xs)"
  by (induction xs) (auto simp: Let_def)

lemma in_op_JStr: "in_op (JStr s) ps = Inr (s \<in> set (map fst ps) \<or> s \<in> set ObjectPrototype)"
  by (simp add: in_op_def bindE_def)

lemma typeof_string_iff: "(typeof v = ''string'') = (\<exists>s. v = JStr s)"
  by (cases v) simp_all

lemma typeof_function_iff: "(typeof v = ''function'') = (\<exists>f. v = JFun f)"
  by (cases v) simp_all

lemma isBaseType_Inr:
  "isBaseType arg =
     Inr (Boolean_js arg \<and> typeof arg = ''object'' \<and> typeof (field arg ''type'') = ''string'' \<and>
          in_op (field arg ''type'') TypeTags = Inr True \<and>
          typeof (field arg ''attributeName'') \<in> {''string'', ''undefined''})"
proof (cases arg)
  case (JObj ps)
  show ?thesis
  proof (cases "typeof (field arg ''type'') = ''string''")
    case True
    then obtain s where "field arg ''type'' = JStr s" by (auto simp: typeof_string_iff)
    with JObj show ?thesis
      by (simp add: isBaseType_def andAlso_def bindE_def in_op_JStr indexOf_gt_iff
               del: field.simps)
  next
    case False
    with JObj show ?thesis
      by (simp add: isBaseType_def andAlso_def bindE_def del: field.simps)
  qed
qed (simp_all add: isBaseType_def andAlso_def bindE_def)

lemma allSchemaTypes_True_iff:
  "(allSchemaTypes xs = Inr True) = (\<forall>x\<in>set xs. isSchemaType x = Inr True)"
  by (induction xs) (auto split: sum.splits)


text \<open>Once the base check has passed, the argument is an object and each case of the switch
  reduces to a statement about its fields.\<close>

lemma getProp_base:
  assumes "isBaseType arg = Inr True"
  shows "getProp arg k = Inr (field arg k)"
proof -
  from assms obtain ps where "arg = JObj ps" using isBaseType_is_obj by blast
  then show ?thesis by simp
qed

lemma isSchemaType_base_fail: "isBaseType arg = Inr False \<Longrightarrow> isSchemaType arg = Inr False"
  by (subst isSchemaType.simps) simp

lemma isSchemaType_Custom:
  assumes "isBaseType arg = Inr True" and "field arg ''type'' = JStr ''Custom''"
  shows "isSchemaType arg =
           Inr (typeof (field arg ''marshall'') = ''function'' \<and>
                typeof (field arg ''unmarshall'') = ''function'')"
  by (subst isSchemaType.simps) (simp add: assms getProp_base andAlso_def bindE_def)

lemma isSchemaType_Document:
  assumes "isBaseType arg = Inr True" and "field arg ''type'' = JStr ''Document''"
  shows "isSchemaType arg =
           (if \<not> Boolean_js (field arg ''members'') \<or> typeof (field arg ''members'') \<noteq> ''object''
            then Inr False
            else (case allSchemaTypes (ownValues (field arg ''members'')) of
                    Inl e \<Rightarrow> Inl e
                  | Inr ok \<Rightarrow>
                      if \<not> ok then Inr False
                      else Inr (typeof (field arg ''valueConstructor'') \<in> {''function'', ''undefined''})))"
  by (subst isSchemaType.simps) (simp add: assms getProp_base indexOf_gt_iff split: sum.splits)

lemma isSchemaType_List_Map:
  assumes "isBaseType arg = Inr True"
    and "field arg ''type'' = JStr ''List'' \<or> field arg ''type'' = JStr ''Map''"
  shows "isSchemaType arg = isSchemaType (field arg ''memberType'')"
  using assms(2) by (subst isSchemaType.simps) (auto simp add: assms(1) getProp_base)

lemma isSchemaType_Tuple:
  assumes "isBaseType arg = Inr True" and "field arg ''type'' = JStr ''Tuple''"
  shows "isSchemaType arg =
           (if \<not> isArray (field arg ''members'') then Inr False
            else allSchemaTypes (elements (field arg ''members'')))"
  by (subst isSchemaType.simps) (simp add: assms getProp_base)

lemma isSchemaType_Binary_String:
  assumes "isBaseType arg = Inr True"
    and "field arg ''type'' = JStr ''Binary'' \<or> field arg ''type'' = JStr ''String''"
  shows "isSchemaType arg = isKeyableType arg"
  using assms(2) by (subst isSchemaType.simps) (auto simp add: assms(1) getProp_base)

lemma isSchemaType_Number:
  assumes "isBaseType arg = Inr True" and "field arg ''type'' = JStr ''Number''"
  shows "isSchemaType arg =
           andAlso (isKeyableType arg)
             (Inr (typeof (field arg ''versionAttribute'') \<in> {''boolean'', ''undefined''}))"
  by (subst isSchemaType.simps) (simp add: assms getProp_base bindE_def indexOf_gt_iff)

text \<open>The equations by which a closed application of the validator is evaluated.\<close>

lemmas eval_simps = isSchemaType.simps isBaseType_def andAlso_def orElse_def bindE_def in_op_def
  TypeTags_def KeyTypes_def ObjectPrototype_def isKeyableType_def isKeyConfiguration_def
  isIndexKeyConfiguration_def AList.delete_eq

subsection \<open>Custom nodes\<close>

text \<open>
  Claim C5. For a node of type \<open>Custom\<close> that passes the base check, \<open>isSchemaType\<close>
  returns true exactly when both its \<open>marshall\<close> and its \<open>unmarshall\<close> field are
  function values, and false when either is missing, null or any other value. The
  outcome is always a returned boolean: the validator reads the \<open>typeof\<close> of the two
  fields and calls neither function.
\<close>

theorem Custom_valid_iff_both_functions:
  assumes "isBaseType arg = Inr True" and "field arg ''type'' = JStr ''Custom''"
  shows "isSchemaType arg =
           Inr ((\<exists>f. field arg ''marshall'' = JFun f) \<and> (\<exists>g. field arg ''unmarshall'' = JFun g))"
  using isSchemaType_Custom [OF assms] by (simp add: typeof_function_iff)

theorem Custom_valid_iff_both_functions_witness:
  "isSchemaType (JObj [(''type'', JStr ''Custom''), (''marshall'', JFun ''m''),
                       (''unmarshall'', JFun ''u'')]) = Inr True \<and>
   isSchemaType (JObj [(''type'', JStr ''Custom''), (''marshall'', JFun ''m'')]) = Inr False \<and>
   isSchemaType (JObj [(''type'', JStr ''Custom''), (''marshall'', JNull),
                       (''unmarshall'', JFun ''u'')]) = Inr False \<and>
   isSchemaType (JObj [(''type'', JStr ''Custom''), (''marshall'', JFun ''m''),
                       (''unmarshall'', JStr ''u'')]) = Inr False"
proof -
  let ?ok = "JObj [(''type'', JStr ''Custom''), (''marshall'', JFun ''m''), (''unmarshall'', JFun ''u'')]"
  let ?missing = "JObj [(''type'', JStr ''Custom''), (''marshall'', JFun ''m'')]"
  let ?null = "JObj [(''type'', JStr ''Custom''), (''marshall'', JNull), (''unmarshall'', JFun ''u'')]"
  let ?str = "JObj [(''type'', JStr ''Custom''), (''marshall'', JFun ''m''), (''unmarshall'', JStr ''u'')]"
  have base: "isBaseType ?ok = Inr True" "isBaseType ?missing = Inr True"
    "isBaseType ?null = Inr True" "isBaseType ?str = Inr True"
    by (simp_all add: isBaseType_Inr in_op_JStr TypeTags_def)
  show ?thesis
    using Custom_valid_iff_both_functions [OF base(1)] Custom_valid_iff_both_functions [OF base(2)]
      Custom_valid_iff_both_functions [OF base(3)] Custom_valid_iff_both_functions [OF base(4)]
    by simp
qed

subsection \<open>Document nodes\<close>

lemma typeof_undefined_iff: "(typeof v = ''undefined'') = (v = JUndefined)"
  by (cases v) simp_all

lemma truthy_object_iff:
  "(Boolean_js v \<and> typeof v = ''object'') = (typeof v = ''object'' \<and> v \<noteq> JNull)"
  by (cases v) simp_all

lemma Document_valid_iff:
  assumes "isBaseType arg = Inr True" and "field arg ''type'' = JStr ''Document''"
  shows "(isSchemaType arg = Inr True) =
           (typeof (field arg ''members'') = ''object'' \<and> field arg ''members'' \<noteq> JNull \<and>
            (\<forall>v\<in>set (ownValues (field arg ''members'')). isSchemaType v = Inr True) \<and>
            (field arg ''valueConstructor'' = JUndefined \<or>
             (\<exists>f. field arg ''valueConstructor'' = JFun f)))"
proof (cases "Boolean_js (field arg ''members'') \<and> typeof (field arg ''members'') = ''object''")
  case False
  then have "isSchemaType arg = Inr False"
    by (simp add: isSchemaType_Document [OF assms])
  with False show ?thesis
    by (simp add: truthy_object_iff)
next
  case True
  then have obj: "typeof (field arg ''members'') = ''object'' \<and> field arg ''members'' \<noteq> JNull"
    by (simp add: truthy_object_iff)
  show ?thesis
  proof (cases "allSchemaTypes (ownValues (field arg ''members'')) = Inr True")
    case all: True
    with True have "isSchemaType arg =
        Inr (typeof (field arg ''valueConstructor'') \<in> {''function'', ''undefined''})"
      by (simp add: isSchemaType_Document [OF assms])
    with all obj show ?thesis
      by (auto simp: allSchemaTypes_True_iff typeof_function_iff typeof_undefined_iff)
  next
    case notall: False
    with True have "isSchemaType arg \<noteq> Inr True"
      by (auto simp: isSchemaType_Document [OF assms] split: sum.splits)
    with notall show ?thesis
      by (simp add: allSchemaTypes_True_iff)
  qed
qed

lemma field_update:
  "field (JObj (AList.update k v ps)) x = (if x = k then v else field (JObj ps) x)"
  by (simp add: AList.update_conv')

lemma in_ownValues_update: "v \<in> set (ownValues (JObj (AList.update k v ms)))"
proof -
  have "map_of (AList.clearjunk (AList.update k v ms)) k = Some v"
    by (simp add: AList.map_of_clearjunk AList.update_conv')
  then have "(k, v) \<in> set (AList.clearjunk (AList.update k v ms))"
    by (rule map_of_SomeD)
  then show ?thesis by force
qed

lemma Document_member_replaced:
  assumes "field (JObj ps) ''type'' = JStr ''Document''" and "isSchemaType v \<noteq> Inr True"
  shows "isSchemaType (JObj (AList.update ''members'' (JObj (AList.update k v ms)) ps)) \<noteq> Inr True"
proof -
  let ?arg = "JObj (AList.update ''members'' (JObj (AList.update k v ms)) ps)"
  have kind: "field ?arg ''type'' = JStr ''Document''"
    using assms(1) by (simp add: field_update del: field.simps)
  have members: "field ?arg ''members'' = JObj (AList.update k v ms)"
    by (simp add: field_update del: field.simps)
  obtain b where b: "isBaseType ?arg = Inr b"
    using isBaseType_Inr by blast
  show ?thesis
  proof (cases b)
    case True
    with b have "isBaseType ?arg = Inr True" by simp
    from Document_valid_iff [OF this kind] assms(2) in_ownValues_update [of v k ms]
    show ?thesis unfolding members by blast
  next
    case False
    with b have "isSchemaType ?arg = Inr False"
      by (simp add: isSchemaType_base_fail)
    then show ?thesis by simp
  qed
qed

text \<open>
  Claim C6. For a node of type \<open>Document\<close> that passes the base check, \<open>isSchemaType\<close>
  returns true exactly when its \<open>members\<close> field is a non-null object, every value in
  \<open>members\<close> is itself a valid schema node, and its \<open>valueConstructor\<close> field is
  undefined or a function. Replacing any member by a value that is not a valid schema
  node gives a node that is not valid.
\<close>

theorem Document_valid_iff_members_valid:
  assumes "isBaseType (JObj ps) = Inr True" and "field (JObj ps) ''type'' = JStr ''Document''"
  shows "((isSchemaType (JObj ps) = Inr True) =
            (typeof (field (JObj ps) ''members'') = ''object'' \<and>
             field (JObj ps) ''members'' \<noteq> JNull \<and>
             (\<forall>v\<in>set (ownValues (field (JObj ps) ''members'')). isSchemaType v = Inr True) \<and>
             (field (JObj ps) ''valueConstructor'' = JUndefined \<or>
              (\<exists>f. field (JObj ps) ''valueConstructor'' = JFun f)))) \<and>
         (\<forall>k v ms. field (JObj ps) ''members'' = JObj ms \<and> isSchemaType v \<noteq> Inr True \<longrightarrow>
            isSchemaType (JObj (AList.update ''members'' (JObj (AList.update k v ms)) ps))
              \<noteq> Inr True)"
  using Document_valid_iff [OF assms] Document_member_replaced [OF assms(2)] by blast

theorem Document_valid_iff_members_valid_witness:
  "isBaseType (JObj [(''type'', JStr ''Document''),
       (''members'', JObj [(''a'', JObj [(''type'', JStr ''Boolean'')]),
                           (''b'', JObj [(''type'', JStr ''String'')])])]) = Inr True \<and>
   isSchemaType (JObj [(''type'', JStr ''Document''),
       (''members'', JObj [(''a'', JObj [(''type'', JStr ''Boolean'')]),
                           (''b'', JObj [(''type'', JStr ''String'')])])]) = Inr True \<and>
   isSchemaType (JObj [(''type'', JStr ''Document''),
       (''members'', JObj [(''a'', JObj [(''type'', JStr ''Boolean'')]),
                           (''b'', JObj [(''type'', JStr ''Bogus'')])])]) \<noteq> Inr True"
proof -
  let ?ms = "[(''a'', JObj [(''type'', JStr ''Boolean'')]), (''b'', JObj [(''type'', JStr ''String'')])]"
  let ?ps = "[(''type'', JStr ''Document''), (''members'', JObj ?ms)]"
  have base: "isBaseType (JObj ?ps) = Inr True"
    by (simp add: isBaseType_Inr in_op_JStr TypeTags_def)
  have kind: "field (JObj ?ps) ''type'' = JStr ''Document''"
    by simp
  have a: "isSchemaType (JObj [(''type'', JStr ''Boolean'')]) = Inr True"
    by (simp add: eval_simps)
  have b: "isSchemaType (JObj [(''type'', JStr ''String'')]) = Inr True"
    by (simp add: eval_simps)
  have bogus: "isSchemaType (JObj [(''type'', JStr ''Bogus'')]) \<noteq> Inr True"
    by (simp add: eval_simps)
  note doc = Document_valid_iff_members_valid [OF base kind]
  from doc a b have valid: "isSchemaType (JObj ?ps) = Inr True"
    by (simp add: AList.delete_eq)
  from doc have "field (JObj ?ps) ''members'' = JObj ?ms \<and>
      isSchemaType (JObj [(''type'', JStr ''Bogus'')]) \<noteq> Inr True \<longrightarrow>
      isSchemaType (JObj (AList.update ''members''
        (JObj (AList.update ''b'' (JObj [(''type'', JStr ''Bogus'')]) ?ms)) ?ps)) \<noteq> Inr True"
    by blast
  with bogus have "isSchemaType (JObj (AList.update ''members''
        (JObj (AList.update ''b'' (JObj [(''type'', JStr ''Bogus'')]) ?ms)) ?ps)) \<noteq> Inr True"
    by simp
  then have invalid: "isSchemaType (JObj [(''type'', JStr ''Document''),
       (''members'', JObj [(''a'', JObj [(''type'', JStr ''Boolean'')]),
                           (''b'', JObj [(''type'', JStr ''Bogus'')])])]) \<noteq> Inr True"
    by simp
  from base valid invalid show ?thesis by simp
qed

subsection \<open>List and Map nodes\<close>

text \<open>
  Claim C7. For a node of type \<open>List\<close> or \<open>Map\<close> that passes the base check,
  \<open>isSchemaType\<close> returns what it returns for the node's \<open>memberType\<close> field, so the
  node is valid exactly when its member type is. Nothing else about the member type is
  checked: a member type with an \<open>attributeName\<close> of its own is accepted.
\<close>

theorem List_Map_valid_iff_memberType_valid:
  assumes "isBaseType arg = Inr True"
    and "field arg ''type'' = JStr ''List'' \<or> field arg ''type'' = JStr ''Map''"
  shows "isSchemaType arg = isSchemaType (field arg ''memberType'')"
  using assms by (rule isSchemaType_List_Map)

theorem List_Map_valid_iff_memberType_valid_witness:
  "isSchemaType (JObj [(''type'', JStr ''List''),
      (''memberType'', JObj [(''type'', JStr ''String''), (''attributeName'', JStr ''name'')])])
     = Inr True \<and>
   isSchemaType (JObj [(''type'', JStr ''Map''), (''memberType'', JObj [(''type'', JStr ''Bogus'')])])
     = Inr False"
proof -
  let ?list = "JObj [(''type'', JStr ''List''),
      (''memberType'', JObj [(''type'', JStr ''String''), (''attributeName'', JStr ''name'')])]"
  let ?map = "JObj [(''type'', JStr ''Map''), (''memberType'', JObj [(''type'', JStr ''Bogus'')])]"
  have base: "isBaseType ?list = Inr True" "isBaseType ?map = Inr True"
    by (simp_all add: isBaseType_Inr in_op_JStr TypeTags_def)
  have kind: "field ?list ''type'' = JStr ''List'' \<or> field ?list ''type'' = JStr ''Map''"
    "field ?map ''type'' = JStr ''List'' \<or> field ?map ''type'' = JStr ''Map''"
    by simp_all
  have "isSchemaType (JObj [(''type'', JStr ''String''), (''attributeName'', JStr ''name'')]) = Inr True"
    by (simp add: eval_simps)
  moreover have "isSchemaType (JObj [(''type'', JStr ''Bogus'')]) = Inr False"
    by (simp add: eval_simps)
  ultimately show ?thesis
    using List_Map_valid_iff_memberType_valid [OF base(1) kind(1)]
      List_Map_valid_iff_memberType_valid [OF base(2) kind(2)]
    by simp
qed

subsection \<open>Tuple nodes\<close>

text \<open>
  Claim C8. For a node of type \<open>Tuple\<close> that passes the base check, \<open>isSchemaType\<close>
  returns true exactly when its \<open>members\<close> field is an array and every element of the
  array is itself a valid schema node; a tuple with an empty \<open>members\<close> array is valid.
\<close>

theorem Tuple_valid_iff_all_members_valid:
  assumes "isBaseType arg = Inr True" and "field arg ''type'' = JStr ''Tuple''"
  shows "((isSchemaType arg = Inr True) =
            (\<exists>xs. field arg ''members'' = JArr xs \<and> (\<forall>x\<in>set xs. isSchemaType x = Inr True))) \<and>
         (field arg ''members'' = JArr [] \<longrightarrow> isSchemaType arg = Inr True)"
proof (cases "field arg ''members''")
  case (JArr xs)
  then have "isSchemaType arg = allSchemaTypes xs"
    by (simp add: isSchemaType_Tuple [OF assms])
  with JArr show ?thesis
    by (auto simp: allSchemaTypes_True_iff)
qed (simp_all add: isSchemaType_Tuple [OF assms])

theorem Tuple_valid_iff_all_members_valid_witness:
  "isSchemaType (JObj [(''type'', JStr ''Tuple''),
      (''members'', JArr [JObj [(''type'', JStr ''Boolean'')], JObj [(''type'', JStr ''String'')]])])
     = Inr True \<and>
   isSchemaType (JObj [(''type'', JStr ''Tuple''),
      (''members'', JArr [JObj [(''type'', JStr ''Boolean'')], JObj [(''type'', JStr ''NotAKind'')]])])
     \<noteq> Inr True \<and>
   isSchemaType (JObj [(''type'', JStr ''Tuple''), (''members'', JArr [])]) = Inr True \<and>
   isSchemaType (JObj [(''type'', JStr ''Tuple''), (''members'', JObj [])]) \<noteq> Inr True"
proof -
  let ?good = "JObj [(''type'', JStr ''Tuple''),
      (''members'', JArr [JObj [(''type'', JStr ''Boolean'')], JObj [(''type'', JStr ''String'')]])]"
  let ?bad = "JObj [(''type'', JStr ''Tuple''),
      (''members'', JArr [JObj [(''type'', JStr ''Boolean'')], JObj [(''type'', JStr ''NotAKind'')]])]"
  let ?empty = "JObj [(''type'', JStr ''Tuple''), (''members'', JArr [])]"
  let ?noarray = "JObj [(''type'', JStr ''Tuple''), (''members'', JObj [])]"
  have base: "isBaseType ?good = Inr True" "isBaseType ?bad = Inr True"
    "isBaseType ?empty = Inr True" "isBaseType ?noarray = Inr True"
    by (simp_all add: isBaseType_Inr in_op_JStr TypeTags_def)
  have members: "isSchemaType (JObj [(''type'', JStr ''Boolean'')]) = Inr True"
    "isSchemaType (JObj [(''type'', JStr ''String'')]) = Inr True"
    "isSchemaType (JObj [(''type'', JStr ''NotAKind'')]) = Inr False"
    by (simp_all add: eval_simps)
  show ?thesis
    using Tuple_valid_iff_all_members_valid [OF base(1)] Tuple_valid_iff_all_members_valid [OF base(2)]
      Tuple_valid_iff_all_members_valid [OF base(3)] Tuple_valid_iff_all_members_valid [OF base(4)]
      members
    by simp
qed

subsection \<open>The base check as a gate\<close>

lemma truthy_of_object: "typeof v = ''object'' \<Longrightarrow> Boolean_js v = (v \<noteq> JNull)"
  by (cases v) simp_all

lemma isBaseType_fails_iff:
  "(isBaseType arg = Inr False) =
     (typeof arg \<noteq> ''object'' \<or> arg = JNull \<or>
      \<not> (\<exists>s. field arg ''type'' = JStr s \<and> in_op (JStr s) TypeTags = Inr True) \<or>
      (field arg ''attributeName'' \<noteq> JUndefined \<and> typeof (field arg ''attributeName'') \<noteq> ''string''))"
  by (auto simp: isBaseType_Inr truthy_of_object typeof_string_iff typeof_undefined_iff
           simp del: field.simps)

lemma isSchemaType_True_base:
  assumes "isSchemaType arg = Inr True"
  shows "isBaseType arg = Inr True"
proof -
  obtain b where b: "isBaseType arg = Inr b"
    using isBaseType_Inr by blast
  with assms isSchemaType_base_fail [of arg] show ?thesis
    by (cases b) simp_all
qed

text \<open>
  The base check \<open>isBaseType\<close> fails exactly when the value is not a non-null object,
  or its \<open>type\<close> field is not a string for which \<open>in TypeTags\<close> holds, or its
  \<open>attributeName\<close> field is neither undefined nor a string. Whenever it fails,
  \<open>isSchemaType\<close> returns false at once: no other field of the value is read, so no
  field can make the validator throw or recurse.
\<close>

lemma base_check_failure_returns_false:
  "((isBaseType arg = Inr False) =
      (typeof arg \<noteq> ''object'' \<or> arg = JNull \<or>
       \<not> (\<exists>s. field arg ''type'' = JStr s \<and> in_op (JStr s) TypeTags = Inr True) \<or>
       (field arg ''attributeName'' \<noteq> JUndefined \<and>
        typeof (field arg ''attributeName'') \<noteq> ''string''))) \<and>
   (isBaseType arg = Inr False \<longrightarrow> isSchemaType arg = Inr False)"
  using isBaseType_fails_iff [of arg] isSchemaType_base_fail [of arg] by blast

lemma base_check_failure_returns_false_example:
  "isSchemaType (JObj [(''type'', JStr ''String''),
      (''keyConfiguration'', JObj [(''type'', JObj [(''toString'', JNull)])])]) = Inl TypeError \<and>
   isBaseType (JObj [(''type'', JStr ''String''), (''attributeName'', JNum 5),
      (''keyConfiguration'', JObj [(''type'', JObj [(''toString'', JNull)])])]) = Inr False \<and>
   isSchemaType (JObj [(''type'', JStr ''String''), (''attributeName'', JNum 5),
      (''keyConfiguration'', JObj [(''type'', JObj [(''toString'', JNull)])])]) = Inr False \<and>
   isSchemaType JNull = Inr False \<and>
   isSchemaType (JObj [(''type'', JStr ''string'')]) = Inr False"
proof -
  let ?kc = "(''keyConfiguration'', JObj [(''type'', JObj [(''toString'', JNull)])])"
  let ?arg = "JObj [(''type'', JStr ''String''), (''attributeName'', JNum 5), ?kc]"
  have throws: "isSchemaType (JObj [(''type'', JStr ''String''), ?kc]) = Inl TypeError"
    by (simp add: eval_simps)
  have "field ?arg ''attributeName'' \<noteq> JUndefined \<and> typeof (field ?arg ''attributeName'') \<noteq> ''string''"
    by simp
  with base_check_failure_returns_false [of ?arg]
  have 1: "isBaseType ?arg = Inr False \<and> isSchemaType ?arg = Inr False"
    by blast
  have 2: "isSchemaType JNull = Inr False"
    using base_check_failure_returns_false [of JNull] by simp
  have "\<not> (\<exists>s. field (JObj [(''type'', JStr ''string'')]) ''type'' = JStr s \<and>
              in_op (JStr s) TypeTags = Inr True)"
    by (simp add: in_op_JStr TypeTags_def ObjectPrototype_def)
  with base_check_failure_returns_false [of "JObj [(''type'', JStr ''string'')]"]
  have 3: "isSchemaType (JObj [(''type'', JStr ''string'')]) = Inr False"
    by blast
  from throws 1 2 3 show ?thesis by simp
qed

text \<open>
  Claim C2 says that \<open>isSchemaType\<close> returns false at once whenever the value is not
  a non-null object, or its \<open>type\<close> is not a string in the tag registry, or its
  \<open>attributeName\<close> is present but not a string. The gate holds as shown above, yet
  the base check does not fail for every string outside the registry: \<open>valueOf\<close> is
  no key of \<open>TypeTags\<close>, but \<open>'valueOf' in TypeTags\<close> holds by inheritance, so the
  value passes the base check and the switch returns true for it.
\<close>

theorem inherited_name_passes_base_check:
  "''valueOf'' \<notin> set (map fst TypeTags) \<and>
   isBaseType (JObj [(''type'', JStr ''valueOf'')]) = Inr True \<and>
   isSchemaType (JObj [(''type'', JStr ''valueOf'')]) = Inr True"
  by (simp add: eval_simps)

text \<open>
  Claim C3 says that a valid node's \<open>attributeName\<close>, when present, is a non-empty
  identifier string. The base check tests only \<open>typeof arg.attributeName\<close>, so the empty
  string is accepted.
\<close>

theorem empty_attributeName_accepted:
  "field (JObj [(''type'', JStr ''Boolean''), (''attributeName'', JStr [])]) ''attributeName'' = JStr [] \<and>
   isSchemaType (JObj [(''type'', JStr ''Boolean''), (''attributeName'', JStr [])]) = Inr True"
  by (simp add: eval_simps)

text \<open>
  Claim C3 as the code has it: for every node whose \<open>attributeName\<close> field is not
  undefined, \<open>isSchemaType\<close> returns true only if that field is a string. The string is
  not constrained further: a \<open>Boolean\<close> node is valid with any string as its
  \<open>attributeName\<close>.
\<close>

theorem valid_node_attributeName_is_string:
  "(isSchemaType arg = Inr True \<and> field arg ''attributeName'' \<noteq> JUndefined \<longrightarrow>
      (\<exists>s. field arg ''attributeName'' = JStr s)) \<and>
   isSchemaType (JObj [(''type'', JStr ''Boolean''), (''attributeName'', JStr s)]) = Inr True"
proof
  show "isSchemaType arg = Inr True \<and> field arg ''attributeName'' \<noteq> JUndefined \<longrightarrow>
      (\<exists>s. field arg ''attributeName'' = JStr s)"
  proof
    assume a: "isSchemaType arg = Inr True \<and> field arg ''attributeName'' \<noteq> JUndefined"
    then have "isBaseType arg = Inr True" by (simp add: isSchemaType_True_base)
    then have "typeof (field arg ''attributeName'') \<in> {''string'', ''undefined''}"
      by (simp add: isBaseType_Inr del: field.simps)
    with a show "\<exists>s. field arg ''attributeName'' = JStr s"
      by (auto simp: typeof_string_iff typeof_undefined_iff simp del: field.simps)
  qed
next
  show "isSchemaType (JObj [(''type'', JStr ''Boolean''), (''attributeName'', JStr s)]) = Inr True"
    by (simp add: eval_simps)
qed

theorem valid_node_attributeName_is_string_witness:
  "isSchemaType (JObj [(''type'', JStr ''Date''), (''attributeName'', JStr ''created at'')]) = Inr True \<and>
   field (JObj [(''type'', JStr ''Date''), (''attributeName'', JStr ''created at'')]) ''attributeName''
     \<noteq> JUndefined \<and>
   (\<exists>s. field (JObj [(''type'', JStr ''Date''), (''attributeName'', JStr ''created at'')])
           ''attributeName'' = JStr s)"
proof -
  let ?arg = "JObj [(''type'', JStr ''Date''), (''attributeName'', JStr ''created at'')]"
  have valid: "isSchemaType ?arg = Inr True"
    by (simp add: eval_simps)
  have present: "field ?arg ''attributeName'' \<noteq> JUndefined"
    by simp
  from valid present valid_node_attributeName_is_string [of ?arg]
  have "\<exists>s. field ?arg ''attributeName'' = JStr s"
    by blast
  with valid present show ?thesis by blast
qed

subsection \<open>Key configurations\<close>

lemma isKeyableType_null_keyConfiguration:
  assumes "isBaseType arg = Inr True" and "field arg ''keyConfiguration'' = JNull"
  shows "isKeyableType arg = Inr False"
  by (simp add: isKeyableType_def getProp_base [OF assms(1)] assms(2) bindE_def andAlso_def
        orElse_def isKeyConfiguration_def)

text \<open>
  Claim C10. Only an undefined \<open>keyConfiguration\<close> stands for a node that is no key: for
  every node of type \<open>Binary\<close>, \<open>String\<close> or \<open>Number\<close> whose \<open>keyConfiguration\<close>
  field is null, \<open>isSchemaType\<close> returns false, although the same node without the
  field can be valid.
\<close>

theorem null_keyConfiguration_rejected:
  assumes "field arg ''keyConfiguration'' = JNull"
    and "field arg ''type'' \<in> {JStr ''Binary'', JStr ''String'', JStr ''Number''}"
  shows "isSchemaType arg = Inr False"
proof -
  obtain b where b: "isBaseType arg = Inr b"
    using isBaseType_Inr by blast
  show ?thesis
  proof (cases b)
    case False
    with b show ?thesis by (simp add: isSchemaType_base_fail)
  next
    case True
    with b have base: "isBaseType arg = Inr True" by simp
    note keyable = isKeyableType_null_keyConfiguration [OF base assms(1)]
    from assms(2) consider "field arg ''type'' = JStr ''Binary'' \<or> field arg ''type'' = JStr ''String''"
      | "field arg ''type'' = JStr ''Number''" by auto
    then show ?thesis
    proof cases
      case 1
      with base keyable show ?thesis by (simp add: isSchemaType_Binary_String)
    next
      case 2
      with base keyable show ?thesis by (simp add: isSchemaType_Number andAlso_def)
    qed
  qed
qed

theorem null_keyConfiguration_rejected_witness:
  "isSchemaType (JObj [(''type'', JStr ''Number''), (''keyConfiguration'', JNull)]) = Inr False \<and>
   isSchemaType (JObj [(''type'', JStr ''Number'')]) = Inr True"
proof -
  let ?arg = "JObj [(''type'', JStr ''Number''), (''keyConfiguration'', JNull)]"
  have "field ?arg ''keyConfiguration'' = JNull"
    and "field ?arg ''type'' \<in> {JStr ''Binary'', JStr ''String'', JStr ''Number''}"
    by simp_all
  then have "isSchemaType ?arg = Inr False"
    by (rule null_keyConfiguration_rejected)
  moreover have "isSchemaType (JObj [(''type'', JStr ''Number'')]) = Inr True"
    by (simp add: eval_simps)
  ultimately show ?thesis by simp
qed

text \<open>
  Claim C4 says that the key configuration of a \<open>Binary\<close>, \<open>String\<close> or \<open>Number\<close>
  node is valid only if its \<open>type\<close> (the role) is one of the two keys of
  \<open>KeyTypes\<close>. \<open>isKeyConfiguration\<close> tests \<open>arg.type in KeyTypes\<close>, which also
  holds for every property name that \<open>KeyTypes\<close> inherits from \<open>Object.prototype\<close>:
  the role \<open>constructor\<close> is accepted.
\<close>

theorem inherited_name_accepted_as_key_type:
  "''constructor'' \<notin> set (map fst KeyTypes) \<and>
   isKeyableType (JObj [(''type'', JStr ''Number''),
      (''keyConfiguration'', JObj [(''type'', JStr ''constructor'')])]) = Inr True \<and>
   isSchemaType (JObj [(''type'', JStr ''Number''),
      (''keyConfiguration'', JObj [(''type'', JStr ''constructor'')])]) = Inr True"
  by (simp add: eval_simps)

text \<open>
  What \<open>isKeyConfiguration\<close> accepts: for a role that is a string, the keys of
  \<open>KeyTypes\<close> and the property names of \<open>Object.prototype\<close>; a role that is no
  string is converted to one first, so that the array \<open>['HASH']\<close> counts as
  \<open>HASH\<close>.
\<close>

lemma isKeyConfiguration_string_role:
  assumes "field kc ''type'' = JStr s" and "Boolean_js kc"
  shows "isKeyConfiguration kc = Inr (s \<in> set (map fst KeyTypes) \<or> s \<in> set ObjectPrototype)"
proof -
  from assms(1) obtain ps where "kc = JObj ps"
    by (cases kc) simp_all
  with assms show ?thesis
    by (simp add: isKeyConfiguration_def andAlso_def bindE_def in_op_JStr)
qed

lemma isKeyConfiguration_array_role:
  "isKeyConfiguration (JObj [(''type'', JArr [JStr ''HASH''])]) = Inr True"
  by (simp add: eval_simps)

subsection \<open>The tag registry\<close>

text \<open>
  Claim C1 says that \<open>isSchemaType\<close> returns false for every object whose \<open>type\<close> is
  a string other than the registered tags, property names inherited from a prototype
  included. \<open>isBaseType\<close> tests \<open>arg.type in TypeTags\<close>, which holds for the sixteen
  keys of \<open>TypeTags\<close> and for the names that \<open>TypeTags\<close> inherits from
  \<open>Object.prototype\<close>; such a name then falls to the \<open>default\<close> case of the switch,
  which returns true.
\<close>

theorem inherited_name_accepted_as_type:
  "''toString'' \<notin> set (map fst TypeTags) \<and> length TypeTags = 16 \<and>
   isSchemaType (JObj [(''type'', JStr ''toString'')]) = Inr True"
  by (simp add: eval_simps)

text \<open>
  Strings that are neither a key of \<open>TypeTags\<close> nor a property name of
  \<open>Object.prototype\<close> are rejected, as are values of \<open>type\<close> that are no strings.
\<close>

lemma unregistered_type_rejected:
  assumes "field arg ''type'' = JStr s"
    and "s \<notin> set (map fst TypeTags)" and "s \<notin> set ObjectPrototype"
  shows "isSchemaType arg = Inr False"
proof -
  from assms have "isBaseType arg = Inr False"
    by (simp add: isBaseType_Inr in_op_JStr del: field.simps)
  then show ?thesis by (rule isSchemaType_base_fail)
qed

subsection \<open>Abrupt completion\<close>

text \<open>
  Claim C9 says that \<open>isSchemaType\<close> never throws, whatever its input.
  \<open>isKeyConfiguration\<close> applies \<open>in\<close> to \<open>arg.type\<close> without testing that it is a
  string, as \<open>isBaseType\<close> does; the operator converts an object to a property key, and
  the conversion throws a TypeError for an object whose \<open>toString\<close> is not callable.
\<close>

theorem isSchemaType_throws_TypeError:
  "isBaseType (JObj [(''type'', JStr ''String''),
      (''keyConfiguration'', JObj [(''type'', JObj [(''toString'', JNull)])])]) = Inr True \<and>
   isSchemaType (JObj [(''type'', JStr ''String''),
      (''keyConfiguration'', JObj [(''type'', JObj [(''toString'', JNull)])])]) = Inl TypeError"
  by (simp add: eval_simps)

end
